theory Spec2Isabelle
  imports Complex_Main
begin

section \<open>The Task class of pyrobolearn/tasks/task.py\<close>

text \<open>
  A \<open>Task\<close> binds one environment object to a sequence of policy objects and drives
  their interaction.  The classes \<open>Env\<close> and \<open>Policy\<close> live in other packages of the
  repository; the task only calls their methods.  Objects are identified by a
  reference, so that two tasks bound to the same reference share the object.
\<close>

type_synonym ref = nat

subsection \<open>Python values handed to the constructor\<close>

text \<open>
  The constructor accepts any Python object for both arguments and tells them apart
  with \<open>isinstance\<close>.  The values of interest are instances of \<open>Env\<close>, instances of
  \<open>Policy\<close>, the sequences (lists, tuples and strings) and objects that are none of
  these.  Instances of \<open>Env\<close> and of \<open>Policy\<close> are not iterable.  The iterables of
  the model are sequences only: iterating a sequence again visits the same elements.
  An iterable that can be consumed once (a generator, an iterator, a \<open>map\<close> object) has
  no value here, and no statement below is about a task built from one.
\<close>

datatype pyobj =
    EnvObj ref
  | PolicyObj ref
  | PyList "pyobj list"
  | PyTuple "pyobj list"
  | PyStr string
  | PyNone
  | PyInt int

text \<open>
  \<open>isinstance(x, collections.abc.Iterable)\<close> on these values, together with the
  elements a \<open>for\<close> loop over the sequence \<open>x\<close> visits, every time it runs; a string
  yields its characters as strings of length one.
\<close>

fun iter_items :: "pyobj \<Rightarrow> pyobj list option" where
  "iter_items (PyList xs) = Some xs"
| "iter_items (PyTuple xs) = Some xs"
| "iter_items (PyStr s) = Some (map (\<lambda>c. PyStr [c]) s)"
| "iter_items (EnvObj r) = None"
| "iter_items (PolicyObj r) = None"
| "iter_items PyNone = None"
| "iter_items (PyInt i) = None"

fun is_Env :: "pyobj \<Rightarrow> bool" where
  "is_Env (EnvObj r) = True"
| "is_Env x = False"

fun is_Policy :: "pyobj \<Rightarrow> bool" where
  "is_Policy (PolicyObj r) = True"
| "is_Policy x = False"

subsection \<open>Errors\<close>

text \<open>
  The three \<open>TypeError\<close>s of the constructor, in the order of their \<open>raise\<close>
  statements, and the \<open>ValueError\<close> of \<open>time.sleep\<close> on a negative duration.
\<close>

datatype error =
    TypeError_environment
  | TypeError_policies_element
  | TypeError_policies
  | ValueError_sleep

fun is_TypeError :: "error \<Rightarrow> bool" where
  "is_TypeError ValueError_sleep = False"
| "is_TypeError e = True"

subsection \<open>The task object\<close>

text \<open>
  The attributes \<open>env\<close>, \<open>policies\<close>, \<open>_done\<close> and \<open>_succeeded\<close>.  The constructor
  stores the sequence it was given (or the list it wrapped a single policy into), after
  checking that every element is a \<open>Policy\<close>; the record keeps the references of the
  elements of that sequence in order, which are the elements the check has visited.
  A string passes the check only when it is empty.
\<close>

record task =
  env :: ref
  policies :: "ref list"
  done_flag :: bool
  succeeded_flag :: bool

text \<open>The validation loop over the elements of an iterable (lines 83 to 85).\<close>

fun check_policies :: "pyobj list \<Rightarrow> error + ref list" where
  "check_policies [] = Inr []"
| "check_policies (PolicyObj r # xs) =
     (case check_policies xs of Inl e \<Rightarrow> Inl e | Inr rs \<Rightarrow> Inr (r # rs))"
| "check_policies (x # xs) = Inl TypeError_policies_element"

text \<open>\<open>Task.__init__\<close>.\<close>

fun Task_init :: "pyobj \<Rightarrow> pyobj \<Rightarrow> error + task" where
  "Task_init (EnvObj e) ps =
     (case iter_items ps of
        Some xs \<Rightarrow>
          (case check_policies xs of
             Inl err \<Rightarrow> Inl err
           | Inr rs \<Rightarrow> Inr \<lparr>env = e, policies = rs, done_flag = False, succeeded_flag = False\<rparr>)
      | None \<Rightarrow>
          (case ps of
             PolicyObj r \<Rightarrow> Inr \<lparr>env = e, policies = [r], done_flag = False, succeeded_flag = False\<rparr>
           | _ \<Rightarrow> Inl TypeError_policies))"
| "Task_init environment ps = Inl TypeError_environment"

subsection \<open>Properties and accessors\<close>

definition is_finished :: "task \<Rightarrow> bool" where
  "is_finished t = done_flag t"

definition has_succeeded :: "task \<Rightarrow> bool" where
  "has_succeeded t = succeeded_flag t"

definition failed :: "task \<Rightarrow> bool" where
  "failed t = (\<not> succeeded_flag t)"

text \<open>
  Several accessors return the single element when there is one policy and the whole
  sequence otherwise.
\<close>

datatype 'a view = Single 'a | Several "'a list"

definition policy :: "task \<Rightarrow> ref view" where
  "policy t = (if length (policies t) = 1 then Single (policies t ! 0)
               else Several (policies t))"

text \<open>
  \<open>learning_model\<close> and \<open>actions\<close> read the attribute \<open>model\<close>, respectively
  \<open>actions\<close>, of each policy; the attribute is a parameter.
\<close>

definition learning_model :: "(ref \<Rightarrow> 'm) \<Rightarrow> task \<Rightarrow> 'm view" where
  "learning_model model t =
     (if length (policies t) = 1 then Single (model (policies t ! 0))
      else Several (map model (policies t)))"

definition actions :: "(ref \<Rightarrow> 'ac) \<Rightarrow> task \<Rightarrow> 'ac view" where
  "actions acts t =
     (if length (policies t) = 1 then Single (acts (policies t ! 0))
      else Several (map acts (policies t)))"

subsection \<open>The collaborators\<close>

text \<open>
  The methods of \<open>Env\<close> and \<open>Policy\<close> that the task calls.  Environment and policies
  share simulator state, so every method acts on one world state \<open>'w\<close> and is told
  which object it is called on.  \<open>env_step\<close> returns the reward and the termination
  flag; the observation and the info dictionary are dropped by the task.  The reward
  type \<open>'r\<close> only needs a zero and an addition.  The methods are taken to return; an
  exception raised by a collaborator leaves the task's method at once and is not caught
  anywhere in the class.
\<close>

record ('w, 's, 'a, 'r) collab =
  env_reset :: "ref \<Rightarrow> 'w \<Rightarrow> 'w"
  env_step :: "ref \<Rightarrow> 'a \<Rightarrow> 'w \<Rightarrow> ('r \<times> bool) \<times> 'w"
  env_render :: "ref \<Rightarrow> 'w \<Rightarrow> 'w"
  env_hide :: "ref \<Rightarrow> 'w \<Rightarrow> 'w"
  pol_states :: "ref \<Rightarrow> 'w \<Rightarrow> 's"
  pol_act :: "ref \<Rightarrow> 's \<Rightarrow> bool \<Rightarrow> 'w \<Rightarrow> 'a \<times> 'w"
  pol_reset :: "ref \<Rightarrow> 'w \<Rightarrow> 'w"

subsection \<open>reset\<close>

text \<open>
  \<open>Task.reset\<close>: both flags are cleared, then the environment and every policy, in
  the order of \<open>policies\<close>, are reset.
\<close>

definition reset :: "('w, 's, 'a, 'r) collab \<Rightarrow> task \<times> 'w \<Rightarrow> task \<times> 'w" where
  "reset C s =
     (case s of (t, w) \<Rightarrow>
        (t\<lparr>done_flag := False, succeeded_flag := False\<rparr>,
         fold (pol_reset C) (policies t) (env_reset C (env t) w)))"

subsection \<open>step\<close>

text \<open>
  The loop over the policies (lines 266 to 274): the flag is overwritten and the reward
  appended once per policy.
\<close>

fun step_policies ::
  "('w, 's, 'a, 'r) collab \<Rightarrow> ref \<Rightarrow> bool \<Rightarrow> ref list \<Rightarrow> bool \<times> 'r list \<times> 'w
     \<Rightarrow> bool \<times> 'r list \<times> 'w" where
  "step_policies C e deterministic [] acc = acc"
| "step_policies C e deterministic (p # ps) (d, rewards, w) =
     (case pol_act C p (pol_states C p w) deterministic w of (act, w1) \<Rightarrow>
        (case env_step C e act w1 of ((rew, dn), w2) \<Rightarrow>
           step_policies C e deterministic ps (dn, rewards @ [rew], w2)))"

text \<open>
  \<open>Task.step\<close>: the environment is told to render or to hide, then the loop runs from
  an empty list of rewards.
\<close>

definition step ::
  "('w, 's, 'a, 'r) collab \<Rightarrow> bool \<Rightarrow> bool \<Rightarrow> task \<times> 'w \<Rightarrow> 'r list \<times> (task \<times> 'w)" where
  "step C deterministic render s =
     (case s of (t, w) \<Rightarrow>
        (case step_policies C (env t) deterministic (policies t)
                (done_flag t, [], if render then env_render C (env t) w else env_hide C (env t) w)
         of (d, rewards, w') \<Rightarrow> (rewards, (t\<lparr>done_flag := d\<rparr>, w'))))"

subsection \<open>run\<close>

text \<open>
  The loop \<open>for t in count()\<close> (lines 234 to 243).  Without \<open>num_steps\<close> the bound is
  infinite and the loop need not end, so the loop returns an option.  \<open>time.sleep\<close>
  raises on a negative duration and otherwise only waits.  The totals and the step's
  rewards have one entry per policy, so the array addition is entrywise.
\<close>

partial_function (option) run_loop ::
  "('w, 's, 'a, 'r::plus) collab \<Rightarrow> int option \<Rightarrow> real \<Rightarrow> bool \<Rightarrow> bool \<Rightarrow> nat
     \<Rightarrow> 'r list \<times> (task \<times> 'w) \<Rightarrow> (error + 'r list \<times> (task \<times> 'w)) option" where
  "run_loop C num_steps dt use_terminating_condition render t acc =
     (case acc of (total_rewards, s) \<Rightarrow>
        if (case num_steps of None \<Rightarrow> False | Some n \<Rightarrow> int t \<ge> n)
        then Some (Inr (total_rewards, s))
        else (case step C True render s of (rewards, s') \<Rightarrow>
          if use_terminating_condition \<and> done_flag (fst s')
          then Some (Inr (map2 (+) total_rewards rewards, s'))
          else if dt < 0 then Some (Inl ValueError_sleep)
          else run_loop C num_steps dt use_terminating_condition render (Suc t)
                 (map2 (+) total_rewards rewards, s')))"

declare run_loop.simps [code]

text \<open>
  The end of \<open>run\<close> (lines 246 to 248): an array of size one is returned as its only
  entry.
\<close>

definition collapse :: "'r list \<Rightarrow> 'r view" where
  "collapse total_rewards =
     (if length total_rewards = 1 then Single (total_rewards ! 0)
      else Several total_rewards)"

text \<open>
  \<open>Task.run\<close>: the totals start as one zero per policy, the task is reset, and the loop
  starts at \<open>t = 0\<close>.
\<close>

definition run ::
  "('w, 's, 'a, 'r::{zero,plus}) collab \<Rightarrow> int option \<Rightarrow> real \<Rightarrow> bool \<Rightarrow> bool
     \<Rightarrow> task \<times> 'w \<Rightarrow> (error + 'r view \<times> (task \<times> 'w)) option" where
  "run C num_steps dt use_terminating_condition render s =
     (case run_loop C num_steps dt use_terminating_condition render 0
             (replicate (length (policies (fst s))) 0, reset C s) of
        None \<Rightarrow> None
      | Some (Inl e) \<Rightarrow> Some (Inl e)
      | Some (Inr (total_rewards, s')) \<Rightarrow> Some (Inr (collapse total_rewards, s')))"

subsection \<open>Shallow copy\<close>

text \<open>
  \<open>Task.__copy__\<close>: the constructor of the task's class applied to the task's own
  environment and to its stored sequence of policies.
\<close>

definition Task_copy :: "task \<Rightarrow> error + task" where
  "Task_copy t = Task_init (EnvObj (env t)) (PyList (map PolicyObj (policies t)))"

subsection \<open>Reference functions for stating the properties\<close>

text \<open>
  What the environment returned to each policy's action during one pass over the
  policies, in policy order: the pairs of reward and termination flag.
\<close>

fun env_reports ::
  "('w, 's, 'a, 'r) collab \<Rightarrow> ref \<Rightarrow> bool \<Rightarrow> ref list \<Rightarrow> 'w \<Rightarrow> ('r \<times> bool) list" where
  "env_reports C e deterministic [] w = []"
| "env_reports C e deterministic (p # ps) w =
     (case pol_act C p (pol_states C p w) deterministic w of (act, w1) \<Rightarrow>
        (case env_step C e act w1 of (report, w2) \<Rightarrow>
           report # env_reports C e deterministic ps w2))"

text \<open>The state after \<open>n\<close> successive steps, and the reward vectors of these steps.\<close>

fun after_steps ::
  "('w, 's, 'a, 'r) collab \<Rightarrow> bool \<Rightarrow> nat \<Rightarrow> task \<times> 'w \<Rightarrow> task \<times> 'w" where
  "after_steps C render 0 s = s"
| "after_steps C render (Suc n) s = after_steps C render n (snd (step C True render s))"

fun step_rewards ::
  "('w, 's, 'a, 'r) collab \<Rightarrow> bool \<Rightarrow> nat \<Rightarrow> task \<times> 'w \<Rightarrow> 'r list list" where
  "step_rewards C render 0 s = []"
| "step_rewards C render (Suc n) s =
     fst (step C True render s) # step_rewards C render n (snd (step C True render s))"

text \<open>Entrywise sum of reward vectors, starting from \<open>n\<close> zeros, in the order of the steps.\<close>

definition sum_rewards :: "nat \<Rightarrow> 'r::{zero,plus} list list \<Rightarrow> 'r list" where
  "sum_rewards n rs = foldl (map2 (+)) (replicate n 0) rs"

subsection \<open>Stub collaborators\<close>

text \<open>
  An environment that counts the calls of its \<open>step\<close> since the last \<open>reset\<close>, returns
  reward 1 whatever the action, and reports termination from the call number \<open>thr\<close>
  on.  The policies have no state; the action of a policy is its own reference.
\<close>

definition stub_env :: "nat \<Rightarrow> (nat, unit, ref, int) collab" where
  "stub_env thr =
     \<lparr>env_reset = (\<lambda>e w. 0),
      env_step = (\<lambda>e act w. ((1, thr \<le> Suc w), Suc w)),
      env_render = (\<lambda>e w. w),
      env_hide = (\<lambda>e w. w),
      pol_states = (\<lambda>p w. ()),
      pol_act = (\<lambda>p st deterministic w. (p, w)),
      pol_reset = (\<lambda>p w. w)\<rparr>"

text \<open>
  An environment that counts the calls of its \<open>step\<close> since the last \<open>reset\<close>, whose
  reward is the action it was given and which reports termination exactly for
  action 0.
\<close>

definition echo_env :: "(nat, unit, ref, int) collab" where
  "echo_env =
     \<lparr>env_reset = (\<lambda>e w. 0),
      env_step = (\<lambda>e act w. ((int act, act = 0), Suc w)),
      env_render = (\<lambda>e w. w),
      env_hide = (\<lambda>e w. w),
      pol_states = (\<lambda>p w. ()),
      pol_act = (\<lambda>p st deterministic w. (p, w)),
      pol_reset = (\<lambda>p w. w)\<rparr>"

text \<open>A task as the constructor leaves it: both flags false.\<close>

definition mk_task :: "ref \<Rightarrow> ref list \<Rightarrow> task" where
  "mk_task e ps = \<lparr>env = e, policies = ps, done_flag = False, succeeded_flag = False\<rparr>"

section \<open>Properties\<close>

subsection \<open>Construction\<close>

lemma check_policies_Inr: "check_policies xs = Inr rs \<Longrightarrow> xs = map PolicyObj rs"
  by (induction xs arbitrary: rs rule: check_policies.induct) (auto split: sum.splits)

lemma check_policies_map: "check_policies (map PolicyObj rs) = Inr rs"
  by (induction rs) auto

lemma check_policies_Inl:
  "check_policies xs = Inl e \<Longrightarrow> e = TypeError_policies_element \<and> (\<exists>x\<in>set xs. \<not> is_Policy x)"
  by (induction xs arbitrary: e rule: check_policies.induct) (auto split: sum.splits)

lemma check_policies_all:
  "(\<exists>rs. check_policies xs = Inr rs) = (\<forall>x\<in>set xs. is_Policy x)"
proof (induction xs rule: check_policies.induct)
  case 1
  then show ?case by simp
next
  case (2 r xs)
  then show ?case by (cases "check_policies xs") auto
qed simp_all

lemma Task_init_Inr:
  "Task_init environment ps = Inr t \<Longrightarrow>
     (\<exists>e. environment = EnvObj e \<and> env t = e) \<and> \<not> done_flag t \<and> \<not> succeeded_flag t \<and>
     (case iter_items ps of Some xs \<Rightarrow> xs = map PolicyObj (policies t)
      | None \<Rightarrow> ps = PolicyObj (hd (policies t)) \<and> length (policies t) = 1)"
  by (cases environment; cases ps)
     (auto split: sum.splits option.splits dest: check_policies_Inr)

text \<open>
  C1, as stated, fails: an empty list is an iterable none of whose elements fails the
  check, so \<open>Task(env, [])\<close> is accepted and the stored sequence is empty.
\<close>

theorem empty_policies_accepted:
  "Task_init (EnvObj 0) (PyList []) = Inr (mk_task 0 []) \<and>
   \<not> 1 \<le> length (policies (mk_task 0 []))"
  by (simp add: mk_task_def)

text \<open>
  C1, amended: after a successful construction from a single policy or from a
  sequence that can be iterated again (a list, a tuple or a string), the stored sequence
  of policies is non-empty exactly when the argument \<open>policies\<close> was not an empty
  sequence, that is, when it was a single policy or a sequence with at least one
  element.  Nothing is said about an iterable that can be consumed only once.
\<close>

theorem policies_nonempty_iff:
  "Task_init environment ps = Inr t \<Longrightarrow> (1 \<le> length (policies t)) = (iter_items ps \<noteq> Some [])"
  by (drule Task_init_Inr) (auto split: option.splits simp: Suc_le_eq)

theorem policies_nonempty_iff_witness:
  "Task_init (EnvObj 0) (PolicyObj 1) = Inr (mk_task 0 [1])
   \<and> 1 \<le> length (policies (mk_task 0 [1]))
   \<and> Task_init (EnvObj 0) (PyList [PolicyObj 1, PolicyObj 2]) = Inr (mk_task 0 [1, 2])
   \<and> 1 \<le> length (policies (mk_task 0 [1, 2]))
   \<and> Task_init (EnvObj 0) (PyTuple [PolicyObj 3]) = Inr (mk_task 0 [3])
   \<and> 1 \<le> length (policies (mk_task 0 [3]))"
proof -
  have single: "Task_init (EnvObj 0) (PolicyObj 1) = Inr (mk_task 0 [1])"
    by (simp add: mk_task_def)
  have list: "Task_init (EnvObj 0) (PyList [PolicyObj 1, PolicyObj 2]) = Inr (mk_task 0 [1, 2])"
    by (simp add: mk_task_def)
  have tuple: "Task_init (EnvObj 0) (PyTuple [PolicyObj 3]) = Inr (mk_task 0 [3])"
    by (simp add: mk_task_def)
  show ?thesis
    using single list tuple
      policies_nonempty_iff [OF single] policies_nonempty_iff [OF list]
      policies_nonempty_iff [OF tuple]
    by simp
qed

text \<open>
  C6: the constructor raises a \<open>TypeError\<close> if and only if the environment is not an
  instance of \<open>Env\<close>, or \<open>policies\<close> is an iterable with an element that is not a
  \<open>Policy\<close>, or \<open>policies\<close> is neither an iterable nor a \<open>Policy\<close>.  A single policy is
  wrapped into a sequence of one element, and a list of policies is accepted as it is.
\<close>

theorem Task_init_TypeError_iff:
  "((\<exists>e. Task_init environment ps = Inl e \<and> is_TypeError e) =
      (\<not> is_Env environment
       \<or> (\<exists>xs. iter_items ps = Some xs \<and> (\<exists>x\<in>set xs. \<not> is_Policy x))
       \<or> (iter_items ps = None \<and> \<not> is_Policy ps)))
   \<and> Task_init (EnvObj e) (PolicyObj r) = Inr (mk_task e [r])
   \<and> Task_init (EnvObj e) (PyList (map PolicyObj rs)) = Inr (mk_task e rs)"
proof (intro conjI)
  show "(\<exists>e. Task_init environment ps = Inl e \<and> is_TypeError e) =
      (\<not> is_Env environment
       \<or> (\<exists>xs. iter_items ps = Some xs \<and> (\<exists>x\<in>set xs. \<not> is_Policy x))
       \<or> (iter_items ps = None \<and> \<not> is_Policy ps))"
  proof (cases environment)
    case (EnvObj e)
    show ?thesis
    proof (cases "iter_items ps")
      case None
      with EnvObj show ?thesis by (cases ps) auto
    next
      case (Some xs)
      show ?thesis
      proof (cases "check_policies xs")
        case (Inl err)
        with check_policies_Inl[OF Inl] EnvObj Some show ?thesis by auto
      next
        case (Inr rs)
        then have "\<forall>x\<in>set xs. is_Policy x" using check_policies_all[of xs] by blast
        with Inr EnvObj Some show ?thesis by auto
      qed
    qed
  qed auto
  show "Task_init (EnvObj e) (PolicyObj r) = Inr (mk_task e [r])"
    by (simp add: mk_task_def)
  show "Task_init (EnvObj e) (PyList (map PolicyObj rs)) = Inr (mk_task e rs)"
    by (simp add: mk_task_def check_policies_map)
qed

theorem Task_init_TypeError_iff_witness:
  "(\<exists>e. Task_init PyNone (PolicyObj 1) = Inl e \<and> is_TypeError e) \<and>
   (\<exists>e. Task_init (EnvObj 0) (PyStr ''not a policy'') = Inl e \<and> is_TypeError e) \<and>
   (\<exists>e. Task_init (EnvObj 0) (PyInt 3) = Inl e \<and> is_TypeError e)"
proof (intro conjI)
  show "\<exists>e. Task_init PyNone (PolicyObj 1) = Inl e \<and> is_TypeError e"
    using Task_init_TypeError_iff [of PyNone "PolicyObj 1"] by simp
  show "\<exists>e. Task_init (EnvObj 0) (PyStr ''not a policy'') = Inl e \<and> is_TypeError e"
    using Task_init_TypeError_iff [of "EnvObj 0" "PyStr ''not a policy''"] by simp
  show "\<exists>e. Task_init (EnvObj 0) (PyInt 3) = Inl e \<and> is_TypeError e"
    using Task_init_TypeError_iff [of "EnvObj 0" "PyInt 3"] by simp
qed

subsection \<open>Accessors\<close>

lemma policies_mk: "policies (mk_task e ps) = ps"
  by (simp add: mk_task_def)


text \<open>
  C8: with exactly one policy the accessors \<open>policy\<close>, \<open>learning_model\<close> and \<open>actions\<close>
  return the single element itself, not a sequence; with two or more policies each
  returns a sequence with one entry per policy.
\<close>

theorem singleton_collapse:
  "(length (policies t) = 1 \<longrightarrow>
      policy t = Single (policies t ! 0)
      \<and> learning_model model t = Single (model (policies t ! 0))
      \<and> actions acts t = Single (acts (policies t ! 0)))
   \<and> (2 \<le> length (policies t) \<longrightarrow>
      (\<exists>xs. policy t = Several xs \<and> length xs = length (policies t))
      \<and> (\<exists>ms. learning_model model t = Several ms \<and> length ms = length (policies t))
      \<and> (\<exists>as. actions acts t = Several as \<and> length as = length (policies t)))"
  by (simp add: policy_def learning_model_def actions_def)

theorem singleton_collapse_witness:
  "policy (mk_task 0 [4]) = Single 4
   \<and> learning_model (\<lambda>p. p + 10) (mk_task 0 [4]) = Single 14
   \<and> actions (\<lambda>p. p + 20) (mk_task 0 [4]) = Single 24
   \<and> (\<exists>xs. policy (mk_task 0 [4, 5]) = Several xs \<and> length xs = 2)
   \<and> (\<exists>ms. learning_model (\<lambda>p. p + 10) (mk_task 0 [4, 5]) = Several ms \<and> length ms = 2)
   \<and> (\<exists>as. actions (\<lambda>p. p + 20) (mk_task 0 [4, 5]) = Several as \<and> length as = 2)"
  using singleton_collapse [of "mk_task 0 [4]" "\<lambda>p. p + 10" "\<lambda>p. p + 20"]
    singleton_collapse [of "mk_task 0 [4, 5]" "\<lambda>p. p + 10" "\<lambda>p. p + 20"]
  by (simp add: policies_mk numeral_2_eq_2)

subsection \<open>reset\<close>

lemma reset_flags: "fst (reset C (t, w)) = t\<lparr>done_flag := False, succeeded_flag := False\<rparr>"
  by (simp add: reset_def)

text \<open>
  C7: after \<open>reset\<close> both flags are false, and a second \<open>reset\<close> right after the first
  leaves the task, hence every flag a caller can read (\<open>done\<close>, \<open>succeeded\<close>, \<open>failed\<close>),
  as the first one left it.
\<close>

theorem reset_idempotent_flags:
  "\<not> done_flag (fst (reset C s)) \<and> \<not> succeeded_flag (fst (reset C s))
   \<and> \<not> done_flag (fst (reset C (reset C s))) \<and> \<not> succeeded_flag (fst (reset C (reset C s)))
   \<and> is_finished (fst (reset C (reset C s))) = is_finished (fst (reset C s))
   \<and> has_succeeded (fst (reset C (reset C s))) = has_succeeded (fst (reset C s))
   \<and> failed (fst (reset C (reset C s))) = failed (fst (reset C s))
   \<and> fst (reset C (reset C s)) = fst (reset C s)"
  by (cases s) (simp add: reset_def is_finished_def has_succeeded_def failed_def)

subsection \<open>One step\<close>

lemma step_policies_flag:
  "fst (step_policies C e det ps (d, rews, w)) = last (d # map snd (env_reports C e det ps w))"
  by (induction ps arbitrary: d rews w) (simp_all split: prod.splits)

lemma step_policies_rewards:
  "fst (snd (step_policies C e det ps (d, rews, w))) = rews @ map fst (env_reports C e det ps w)"
  by (induction ps arbitrary: d rews w) (simp_all split: prod.splits)

lemma length_env_reports: "length (env_reports C e det ps w) = length ps"
  by (induction ps arbitrary: w) (simp_all split: prod.splits)

lemma step_unfold:
  "step C det render (t, w) =
     (fst (snd (step_policies C (env t) det (policies t)
        (done_flag t, [], if render then env_render C (env t) w else env_hide C (env t) w))),
      t\<lparr>done_flag := fst (step_policies C (env t) det (policies t)
        (done_flag t, [], if render then env_render C (env t) w else env_hide C (env t) w))\<rparr>,
      snd (snd (step_policies C (env t) det (policies t)
        (done_flag t, [], if render then env_render C (env t) w else env_hide C (env t) w))))"
  by (simp add: step_def split: prod.splits)

lemma step_rewards_eq:
  "fst (step C det render (t, w)) =
     map fst (env_reports C (env t) det (policies t)
       (if render then env_render C (env t) w else env_hide C (env t) w))"
  by (simp only: step_unfold fst_conv step_policies_rewards append_Nil)

lemma step_flag_eq:
  "done_flag (fst (snd (step C det render (t, w)))) =
     last (done_flag t # map snd (env_reports C (env t) det (policies t)
       (if render then env_render C (env t) w else env_hide C (env t) w)))"
  by (simp add: step_unfold step_policies_flag)

lemma step_policies_kept: "policies (fst (snd (step C det render (t, w)))) = policies t"
  by (simp add: step_unfold)

lemma step_policies_world:
  "snd (snd (step_policies C e det ps (d, rews, w))) =
     snd (snd (step_policies C e det ps (d', rews', w)))"
proof (induction ps arbitrary: d rews d' rews' w)
  case Nil
  then show ?case by simp
next
  case (Cons p ps)
  obtain act w1 where a: "pol_act C p (pol_states C p w) det w = (act, w1)"
    by (cases "pol_act C p (pol_states C p w) det w")
  obtain rew dn w2 where b: "env_step C e act w1 = ((rew, dn), w2)"
    by (cases "env_step C e act w1") auto
  have "snd (snd (step_policies C e det ps (dn, rews @ [rew], w2))) =
      snd (snd (step_policies C e det ps (dn, rews' @ [rew], w2)))"
    by (rule Cons.IH)
  with a b show ?case by simp
qed

text \<open>
  C3: \<open>step\<close> returns one reward per policy, and the entry at position \<open>i\<close> is the
  reward the environment returned for the action of the policy at position \<open>i\<close>.
\<close>

theorem step_reward_vector:
  "fst (step C deterministic render (t, w)) =
     map fst (env_reports C (env t) deterministic (policies t)
       (if render then env_render C (env t) w else env_hide C (env t) w))
   \<and> length (fst (step C deterministic render (t, w))) = length (policies t)"
  by (simp add: step_rewards_eq length_env_reports)

text \<open>
  C5: the flag after \<open>step\<close> is the last of the termination flags the environment
  reported, one per policy in order, each overwriting the one before; with at least
  one policy it is the report for the last policy.
\<close>

theorem step_done_last_policy:
  "done_flag (fst (snd (step C deterministic render (t, w)))) =
     last (done_flag t # map snd (env_reports C (env t) deterministic (policies t)
       (if render then env_render C (env t) w else env_hide C (env t) w)))
   \<and> (policies t \<noteq> [] \<longrightarrow>
        done_flag (fst (snd (step C deterministic render (t, w)))) =
          snd (last (env_reports C (env t) deterministic (policies t)
            (if render then env_render C (env t) w else env_hide C (env t) w))))"
proof -
  have ne: "policies t \<noteq> [] \<Longrightarrow> env_reports C e d (policies t) w' \<noteq> []" for e d w'
    using length_env_reports [of C e d "policies t" w'] by auto
  show ?thesis
    by (simp only: step_flag_eq) (auto simp add: ne last_map)
qed

theorem step_done_last_policy_witness:
  "env_reports echo_env 0 True [0, 1] 0 = [(0, True), (1, False)] \<and>
   done_flag (fst (snd (step echo_env True False (mk_task 0 [0, 1], 0)))) = False \<and>
   env_reports echo_env 0 True [1, 0] 0 = [(1, False), (0, True)] \<and>
   done_flag (fst (snd (step echo_env True False (mk_task 0 [1, 0], 0)))) = True"
  using step_done_last_policy [of echo_env True False "mk_task 0 [0, 1]" 0]
    step_done_last_policy [of echo_env True False "mk_task 0 [1, 0]" 0]
  by (simp add: echo_env_def mk_task_def)

subsection \<open>The loop of run\<close>

lemma run_loop_bounded:
  "t0 + d = k \<Longrightarrow> 0 \<le> dt \<Longrightarrow>
     run_loop C (Some (int k)) dt False render t0 (tot, s) =
       Some (Inr (foldl (map2 (+)) tot (step_rewards C render d s), after_steps C render d s))"
proof (induction d arbitrary: t0 tot s)
  case 0
  then show ?case by (subst run_loop.simps) simp
next
  case (Suc d)
  from Suc.prems have lt: "\<not> int k \<le> int t0" by simp
  from Suc.prems have nxt: "Suc t0 + d = k" by simp
  show ?case
    apply (subst run_loop.simps)
    using lt Suc.prems(2) Suc.IH[OF nxt Suc.prems(2)]
    by (simp split: prod.splits)
qed


lemma run_bounded:
  "run C (Some (int k)) 0 False render (t, w) =
     Some (Inr (collapse (sum_rewards (length (policies t))
                  (step_rewards C render k (reset C (t, w)))),
                after_steps C render k (reset C (t, w))))"
  using run_loop_bounded [of 0 k k 0 C render "replicate (length (policies t)) 0" "reset C (t, w)"]
  by (simp add: run_def sum_rewards_def)

subsection \<open>The totals are entrywise sums\<close>

lemma length_foldl_map2:
  "\<forall>r\<in>set rs. length r = length acc \<Longrightarrow> length (foldl (map2 (+)) acc rs) = length acc"
  by (induction rs arbitrary: acc) simp_all

lemma foldl_map2_nth:
  fixes acc :: "'r::monoid_add list"
  shows "\<forall>r\<in>set rs. length r = length acc \<Longrightarrow> i < length acc \<Longrightarrow>
     foldl (map2 (+)) acc rs ! i = acc ! i + (\<Sum>r\<leftarrow>rs. r ! i)"
proof (induction rs arbitrary: acc)
  case Nil
  then show ?case by simp
next
  case (Cons r rs)
  have len: "length (map2 (+) acc r) = length acc" using Cons.prems by simp
  have "foldl (map2 (+)) (map2 (+) acc r) rs ! i =
      map2 (+) acc r ! i + (\<Sum>r\<leftarrow>rs. r ! i)"
    by (rule Cons.IH) (use Cons.prems len in simp_all)
  then show ?case using Cons.prems by (simp add: add.assoc)
qed

lemma sum_rewards_nth:
  fixes rs :: "'r::monoid_add list list"
  shows "\<forall>r\<in>set rs. length r = n \<Longrightarrow> i < n \<Longrightarrow> sum_rewards n rs ! i = (\<Sum>r\<leftarrow>rs. r ! i)"
  using foldl_map2_nth [of rs "replicate n 0" i] by (simp add: sum_rewards_def)

lemma step_rewards_length:
  "\<forall>r\<in>set (step_rewards C render n s). length r = length (policies (fst s))"
proof (induction n arbitrary: s)
  case 0
  then show ?case by simp
next
  case (Suc n)
  obtain t w where s: "s = (t, w)" by (cases s)
  have "length (fst (step C True render (t, w))) = length (policies t)"
    by (simp add: step_rewards_eq length_env_reports)
  moreover have "policies (fst (snd (step C True render (t, w)))) = policies t"
    by (rule step_policies_kept)
  ultimately show ?case using Suc.IH [of "snd (step C True render (t, w))"] s by simp
qed

lemma run_totals_length:
  "length (sum_rewards (length (policies t)) (step_rewards C render k (reset C (t, w)))) =
     length (policies t)"
  using step_rewards_length [of C render k "reset C (t, w)"]
    length_foldl_map2 [of "step_rewards C render k (reset C (t, w))"
      "replicate (length (policies t)) 0"]
  by (simp add: sum_rewards_def reset_flags)

lemma run_totals_componentwise:
  fixes C :: "('w, 's, 'a, 'r::monoid_add) collab"
  assumes "i < length (policies t)"
  shows "sum_rewards (length (policies t)) (step_rewards C render k (reset C (t, w))) ! i =
           (\<Sum>r\<leftarrow>step_rewards C render k (reset C (t, w)). r ! i)"
proof (rule sum_rewards_nth)
  show "\<forall>r\<in>set (step_rewards C render k (reset C (t, w))). length r = length (policies t)"
    using step_rewards_length [of C render k "reset C (t, w)"] by (simp add: reset_flags)
  show "i < length (policies t)" by (rule assms)
qed

subsection \<open>The stub environment\<close>

lemma stub_reset: "reset (stub_env thr) (t, w) = (t\<lparr>done_flag := False, succeeded_flag := False\<rparr>, 0)"
proof -
  have "fold (\<lambda>p w. w) ps x = x" for ps :: "ref list" and x :: nat
    by (induction ps) simp_all
  then show ?thesis by (simp add: reset_def stub_env_def)
qed

lemma stub_reset_mk: "reset (stub_env thr) (mk_task e ps, w) = (mk_task e ps, 0)"
  by (simp add: stub_reset mk_task_def)

lemma stub_step_one:
  "policies t = [p] \<Longrightarrow>
   step (stub_env thr) det render (t, w) = ([1], (t\<lparr>done_flag := thr \<le> Suc w\<rparr>, Suc w))"
  by (auto simp add: step_def stub_env_def)

lemma stub_step_two:
  "policies t = [p, q] \<Longrightarrow>
   step (stub_env thr) det render (t, w) =
     ([1, 1], (t\<lparr>done_flag := thr \<le> Suc (Suc w)\<rparr>, Suc (Suc w)))"
  by (auto simp add: step_def stub_env_def)



lemma stub_step_rewards1:
  "policies t = [p] \<Longrightarrow> step_rewards (stub_env thr) render n (t, w) = replicate n [1]"
  by (induction n arbitrary: t w) (simp_all add: stub_step_one)

lemma stub_step_rewards2:
  "policies t = [p, q] \<Longrightarrow> step_rewards (stub_env thr) render n (t, w) = replicate n [1, 1]"
  by (induction n arbitrary: t w) (simp_all add: stub_step_two)

lemma foldl_ones1: "foldl (map2 (+)) [a] (replicate n [1]) = [a + int n]"
  by (induction n arbitrary: a) (simp_all add: algebra_simps)

lemma foldl_ones2:
  "foldl (map2 (+)) [a, b] (replicate n [1, 1]) = [a + int n, b + int n]"
  by (induction n arbitrary: a b) (simp_all add: algebra_simps)

lemma stub_sum_rewards1:
  "sum_rewards (Suc 0) (step_rewards (stub_env thr) render n (mk_task e [p], w)) = [int n]"
  by (simp add: sum_rewards_def stub_step_rewards1 [of _ p] mk_task_def foldl_ones1)

lemma stub_sum_rewards2:
  "sum_rewards (Suc (Suc 0)) (step_rewards (stub_env thr) render n (mk_task e [p, q], w)) = [int n, int n]"
  by (simp add: sum_rewards_def stub_step_rewards2 [of _ p q] mk_task_def foldl_ones2)






subsection \<open>run\<close>

text \<open>
  C2: \<open>run(num_steps=k)\<close> starts from the state \<open>reset\<close> leaves, executes \<open>k\<close> steps,
  adds their reward vectors entrywise to a vector of zeros, and returns the single
  total when the task has exactly one policy and the vector of totals, one per policy,
  otherwise.  With the stub environment, whose reward is always 1, \<open>run(num_steps=5)\<close>
  returns 5 for one policy and \<open>[5, 5]\<close> for two.  (When the addition of rewards is
  associative with unit 0, entry \<open>i\<close> of the totals is the sum over the steps of entry
  \<open>i\<close> of the step's rewards: lemma \<open>run_totals_componentwise\<close>.)
\<close>

theorem run_accumulates:
  "run C (Some (int k)) 0 False render (t, w) =
     Some (Inr ((if length (policies t) = 1
                 then Single (sum_rewards (length (policies t))
                        (step_rewards C render k (reset C (t, w))) ! 0)
                 else Several (sum_rewards (length (policies t))
                        (step_rewards C render k (reset C (t, w))))),
                after_steps C render k (reset C (t, w))))
   \<and> length (sum_rewards (length (policies t)) (step_rewards C render k (reset C (t, w)))) =
       length (policies t)
   \<and> map_option (map_sum id fst)
        (run (stub_env thr) (Some 5) 0 False False (mk_task e [p], w0)) =
      Some (Inr (Single 5))
   \<and> map_option (map_sum id fst)
        (run (stub_env thr) (Some 5) 0 False False (mk_task e [p, q], w0)) =
      Some (Inr (Several [5, 5]))"
proof (intro conjI)
  show len: "length (sum_rewards (length (policies t))
      (step_rewards C render k (reset C (t, w)))) = length (policies t)"
    by (rule run_totals_length)
  show "run C (Some (int k)) 0 False render (t, w) =
     Some (Inr ((if length (policies t) = 1
                 then Single (sum_rewards (length (policies t))
                        (step_rewards C render k (reset C (t, w))) ! 0)
                 else Several (sum_rewards (length (policies t))
                        (step_rewards C render k (reset C (t, w))))),
                after_steps C render k (reset C (t, w))))"
    unfolding run_bounded collapse_def len by simp
  have five: "Some (5::int) = Some (int 5)" by simp
  show "map_option (map_sum id fst)
        (run (stub_env thr) (Some 5) 0 False False (mk_task e [p], w0)) =
      Some (Inr (Single 5))"
    unfolding five run_bounded
    by (simp add: stub_reset_mk stub_sum_rewards1 policies_mk collapse_def)
  show "map_option (map_sum id fst)
        (run (stub_env thr) (Some 5) 0 False False (mk_task e [p, q], w0)) =
      Some (Inr (Several [5, 5]))"
    unfolding five run_bounded
    by (simp add: stub_reset_mk stub_sum_rewards2 policies_mk collapse_def)
qed




subsection \<open>Shallow copy\<close>

lemma Task_copy_eq:
  "Task_copy t = Inr \<lparr>env = env t, policies = policies t, done_flag = False, succeeded_flag = False\<rparr>"
  by (simp add: Task_copy_def check_policies_map)

text \<open>
  C9: the shallow copy is a task with the same environment reference and the same
  policy references as the original.  Nothing is duplicated: resetting or stepping
  the copy acts on the world exactly as resetting or stepping the original does.
\<close>

theorem shallow_copy_shares:
  "\<exists>t'. Task_copy t = Inr t' \<and> env t' = env t \<and> policies t' = policies t
     \<and> (\<forall>C w. snd (reset C (t', w)) = snd (reset C (t, w)))
     \<and> (\<forall>C deterministic render w.
          fst (step C deterministic render (t', w)) = fst (step C deterministic render (t, w))
          \<and> snd (snd (step C deterministic render (t', w))) =
            snd (snd (step C deterministic render (t, w))))"
proof -
  let ?t' = "\<lparr>env = env t, policies = policies t, done_flag = False, succeeded_flag = False\<rparr>"
  have "snd (reset C (?t', w)) = snd (reset C (t, w))" for C :: "('a, 'b, 'c, 'd) collab" and w
    by (simp add: reset_def)
  moreover have "fst (step C det render (?t', w)) = fst (step C det render (t, w))"
    for C :: "('e, 'f, 'g, 'h) collab" and det render w
    by (simp add: step_rewards_eq)
  moreover have "snd (snd (step C det render (?t', w))) = snd (snd (step C det render (t, w)))"
    for C :: "('e, 'f, 'g, 'h) collab" and det render w
    using step_policies_world [of C "env t" det "policies t" False "[]" _ "done_flag t" "[]"]
    by (simp add: step_unfold)
  ultimately show ?thesis by (simp add: Task_copy_eq)
qed

text \<open>
  C10: both flags of the shallow copy are false whatever the flags of the original,
  since the copy comes from the constructor.
\<close>

theorem shallow_copy_flags:
  "\<exists>t'. Task_copy t = Inr t' \<and> done_flag t' = False \<and> succeeded_flag t' = False"
  by (simp add: Task_copy_eq)

end
